theory Spec2Isabelle
  imports Main "HOL-Library.Word" "HOL-Library.Monad_Syntax"
begin

section \<open>Switch firmware: configuration and channel state\<close>

text \<open>
  The model follows \<^verbatim>\<open>src/firmware/switch.c\<close>. A C \<^verbatim>\<open>int\<close> that is only stored,
  compared and printed is an \<open>int\<close>; \<^verbatim>\<open>time_t\<close> is an \<open>int\<close>; the \<^verbatim>\<open>unsigned long\<close>
  toggle counters are 64-bit words (LP64 Linux), so that the increment wraps as in C.
  An access outside a C array is undefined behaviour: every array access of the model
  is checked and the value \<open>None\<close> stands for such a fault.
  The mutex is not modelled: the functions are the sequential behaviour of one caller.
  Console output of \<^verbatim>\<open>set_switch\<close>, \<^verbatim>\<open>execute_command\<close> and \<^verbatim>\<open>print_status\<close> does not
  touch the switch state and is left out of these functions.
\<close>

definition MAX_CHANNELS :: int where
  "MAX_CHANNELS = 4"

type_synonym time_t = int
type_synonym ulong = "64 word"

text \<open>
  The sensor's \<^verbatim>\<open>Config\<close> struct has five fields; the switch's \<^verbatim>\<open>Config\<close> has the same
  five and two more.
\<close>

record Sensor_Config =
  device_id :: string
  device_name :: string
  panel_url :: string
  report_interval :: int
  verbose :: int

record Config = Sensor_Config +
  poll_commands_interval :: int
  num_channels :: int

record SwitchState =
  channel :: "int list"
  last_toggle :: "time_t list"
  toggle_count :: "ulong list"

text \<open>\<^verbatim>\<open>static SwitchState switch_state = {0};\<close>\<close>

definition switch_state_init :: SwitchState where
  "switch_state_init =
     \<lparr>channel = [0, 0, 0, 0], last_toggle = [0, 0, 0, 0], toggle_count = [0, 0, 0, 0]\<rparr>"

text \<open>The three arrays have \<^verbatim>\<open>MAX_CHANNELS\<close> elements each.\<close>

definition wf_state :: "SwitchState \<Rightarrow> bool" where
  "wf_state s \<longleftrightarrow>
     int (length (channel s)) = MAX_CHANNELS \<and>
     int (length (last_toggle s)) = MAX_CHANNELS \<and>
     int (length (toggle_count s)) = MAX_CHANNELS"

text \<open>What \<^verbatim>\<open>load_config\<close> guarantees of \<^verbatim>\<open>config.num_channels\<close> (proved below).\<close>

definition wf_config :: "Config \<Rightarrow> bool" where
  "wf_config cfg \<longleftrightarrow> num_channels cfg \<le> MAX_CHANNELS"

definition array_get :: "'a list \<Rightarrow> int \<Rightarrow> 'a option" where
  "array_get a i = (if 0 \<le> i \<and> i < int (length a) then Some (a ! nat i) else None)"

definition array_set :: "'a list \<Rightarrow> int \<Rightarrow> 'a \<Rightarrow> 'a list option" where
  "array_set a i v = (if 0 \<le> i \<and> i < int (length a) then Some (a[nat i := v]) else None)"

text \<open>
  \<^verbatim>\<open>void set_switch(int channel, int state)\<close>; \<open>now\<close> is what \<^verbatim>\<open>time(NULL)\<close> returns
  during the call. The function returns nothing to its caller: the result of the model
  is the switch state after the call.
\<close>

definition set_switch :: "Config \<Rightarrow> time_t \<Rightarrow> int \<Rightarrow> int \<Rightarrow> SwitchState \<Rightarrow> SwitchState option" where
  "set_switch cfg now ch state s =
     (if ch < 0 \<or> ch \<ge> num_channels cfg then Some s
      else do {
        cur \<leftarrow> array_get (channel s) ch;
        if cur \<noteq> state then do {
          c' \<leftarrow> array_set (channel s) ch state;
          l' \<leftarrow> array_set (last_toggle s) ch now;
          n \<leftarrow> array_get (toggle_count s) ch;
          t' \<leftarrow> array_set (toggle_count s) ch (n + 1);
          Some (s\<lparr>channel := c', last_toggle := l', toggle_count := t'\<rparr>)
        } else Some s
      })"

text \<open>\<^verbatim>\<open>int get_switch(int channel)\<close>: 0 for an index out of range.\<close>

definition get_switch :: "Config \<Rightarrow> SwitchState \<Rightarrow> int \<Rightarrow> int option" where
  "get_switch cfg s ch =
     (if ch < 0 \<or> ch \<ge> num_channels cfg then Some 0 else array_get (channel s) ch)"

text \<open>The C operator \<^verbatim>\<open>!\<close>.\<close>

definition c_not :: "int \<Rightarrow> int" where
  "c_not x = (if x = 0 then 1 else 0)"

definition toggle_switch :: "Config \<Rightarrow> time_t \<Rightarrow> int \<Rightarrow> SwitchState \<Rightarrow> SwitchState option" where
  "toggle_switch cfg now ch s =
     do { current \<leftarrow> get_switch cfg s ch; set_switch cfg now ch (c_not current) s }"

text \<open>
  The loop \<^verbatim>\<open>for (int i = 0; i < config.num_channels; i++) set_switch(i, state);\<close> of
  \<^verbatim>\<open>all_on\<close> and \<^verbatim>\<open>all_off\<close>, from index \<open>i\<close> on. \<open>time_at i\<close> is the reading of
  \<^verbatim>\<open>time(NULL)\<close> taken while \<^verbatim>\<open>set_switch\<close> runs on channel \<open>i\<close>.
\<close>

function set_all :: "Config \<Rightarrow> (int \<Rightarrow> time_t) \<Rightarrow> int \<Rightarrow> int \<Rightarrow> SwitchState \<Rightarrow> SwitchState option" where
  "set_all cfg time_at state i s =
     (if i < num_channels cfg
      then do { s' \<leftarrow> set_switch cfg (time_at i) i state s; set_all cfg time_at state (i + 1) s' }
      else Some s)"
  by pat_completeness auto
termination
  by (relation "measure (\<lambda>(cfg, time_at, state, i, s). nat (num_channels cfg - i))") auto

declare set_all.simps [simp del]

text \<open>
  \<^verbatim>\<open>void print_status()\<close>: the loop reads the value and the toggle count of every channel
  below \<^verbatim>\<open>config.num_channels\<close>, from index \<open>i\<close> on; what it prints is left out.
\<close>

function print_status_loop :: "Config \<Rightarrow> SwitchState \<Rightarrow> int \<Rightarrow> unit option" where
  "print_status_loop cfg s i =
     (if i < num_channels cfg
      then do {
        state \<leftarrow> array_get (channel s) i;
        count \<leftarrow> array_get (toggle_count s) i;
        print_status_loop cfg s (i + 1)
      }
      else Some ())"
  by pat_completeness auto
termination
  by (relation "measure (\<lambda>(cfg, s, i). nat (num_channels cfg - i))") auto

declare print_status_loop.simps [simp del]

definition print_status :: "Config \<Rightarrow> SwitchState \<Rightarrow> unit option" where
  "print_status cfg s = print_status_loop cfg s 0"

text \<open>\<^verbatim>\<open>void execute_command(const char* command, int channel)\<close>\<close>

definition execute_command :: "Config \<Rightarrow> (int \<Rightarrow> time_t) \<Rightarrow> string \<Rightarrow> int \<Rightarrow> SwitchState \<Rightarrow> SwitchState option" where
  "execute_command cfg time_at command ch s =
     (if command = ''on'' then set_switch cfg (time_at ch) ch 1 s
      else if command = ''off'' then set_switch cfg (time_at ch) ch 0 s
      else if command = ''toggle'' then toggle_switch cfg (time_at ch) ch s
      else if command = ''status'' then do { _ \<leftarrow> print_status cfg s; Some s }
      else if command = ''all_on'' then set_all cfg time_at 1 0 s
      else if command = ''all_off'' then set_all cfg time_at 0 0 s
      else Some s)"

section \<open>Switch firmware: \<^verbatim>\<open>load_config\<close>\<close>

text \<open>
  C strings are lists of characters without the terminating NUL. \<^verbatim>\<open>isspace\<close>,
  \<^verbatim>\<open>isdigit\<close>, \<^verbatim>\<open>strtol\<close> and \<^verbatim>\<open>atoi\<close> are the C library's (glibc on LP64 Linux), in
  the C locale and in base 10: \<^verbatim>\<open>strtol\<close> returns a 64-bit \<^verbatim>\<open>long\<close> and stops at
  \<^verbatim>\<open>LONG_MIN\<close> and \<^verbatim>\<open>LONG_MAX\<close>; \<^verbatim>\<open>atoi\<close> is \<^verbatim>\<open>(int) strtol(s, NULL, 10)\<close>, and the
  conversion to \<^verbatim>\<open>int\<close> keeps the low 32 bits of the \<^verbatim>\<open>long\<close>, read as two's complement.
\<close>

definition isspace :: "char \<Rightarrow> bool" where
  "isspace c \<longleftrightarrow>
     c = CHR '' '' \<or> c = CHR 0x09 \<or> c = CHR 0x0A \<or> c = CHR 0x0B \<or> c = CHR 0x0C \<or> c = CHR 0x0D"

definition isdigit :: "char \<Rightarrow> bool" where
  "isdigit c \<longleftrightarrow> 48 \<le> (of_char c :: nat) \<and> (of_char c :: nat) \<le> 57"

fun atoi_digits :: "int \<Rightarrow> string \<Rightarrow> int" where
  "atoi_digits acc [] = acc"
| "atoi_digits acc (c # cs) =
     (if isdigit c then atoi_digits (10 * acc + (of_char c - 48)) cs else acc)"

definition LONG_MAX :: int where
  "LONG_MAX = 9223372036854775807"

definition LONG_MIN :: int where
  "LONG_MIN = - 9223372036854775808"

definition strtol :: "string \<Rightarrow> int" where
  "strtol s =
     (case dropWhile isspace s of
        [] \<Rightarrow> 0
      | c # cs \<Rightarrow>
          if c = CHR ''-'' then max LONG_MIN (- atoi_digits 0 cs)
          else if c = CHR ''+'' then min LONG_MAX (atoi_digits 0 cs)
          else min LONG_MAX (atoi_digits 0 (c # cs)))"

text \<open>The conversion of a \<^verbatim>\<open>long\<close> to \<^verbatim>\<open>int\<close>: the value modulo \<open>2^32\<close> within the range of \<^verbatim>\<open>int\<close>.\<close>

definition long_to_int :: "int \<Rightarrow> int" where
  "long_to_int x = (x + 2147483648) mod 4294967296 - 2147483648"

definition atoi :: "string \<Rightarrow> int" where
  "atoi s = long_to_int (strtol s)"

text \<open>
  \<^verbatim>\<open>sscanf(line, "%63[^=]=%191[^\n]", key, value) == 2\<close>: a non-empty run of at most 63
  characters other than \<^verbatim>\<open>=\<close>, then \<^verbatim>\<open>=\<close>, then a non-empty run of at most 191
  characters other than a newline. \<open>None\<close> when fewer than two fields are assigned.
\<close>

definition scan_key_value :: "string \<Rightarrow> (string \<times> string) option" where
  "scan_key_value line =
     (let key = take 63 (takeWhile (\<lambda>c. c \<noteq> CHR ''='') line) in
      if key = [] then None
      else case drop (length key) line of
        [] \<Rightarrow> None
      | c # rest \<Rightarrow>
          if c \<noteq> CHR ''='' then None
          else let val = take 191 (takeWhile (\<lambda>c. c \<noteq> CHR 0x0A) rest) in
               if val = [] then None else Some (key, val))"

text \<open>The chain of \<^verbatim>\<open>strcmp\<close> tests on the key \<open>k\<close>, with the value \<open>v\<close>.\<close>

definition set_option :: "string \<Rightarrow> string \<Rightarrow> Config \<Rightarrow> Config" where
  "set_option k v cfg =
     (if k = ''device_id'' then cfg\<lparr>device_id := take 63 v\<rparr>
      else if k = ''device_name'' then cfg\<lparr>device_name := take 127 v\<rparr>
      else if k = ''panel_url'' then cfg\<lparr>panel_url := take 255 v\<rparr>
      else if k = ''report_interval'' then cfg\<lparr>report_interval := atoi v\<rparr>
      else if k = ''num_channels'' then
        (let cfg' = cfg\<lparr>num_channels := atoi v\<rparr> in
         if num_channels cfg' > MAX_CHANNELS then cfg'\<lparr>num_channels := MAX_CHANNELS\<rparr> else cfg')
      else if k = ''verbose'' then cfg\<lparr>verbose := atoi v\<rparr>
      else cfg)"

text \<open>The body of the \<^verbatim>\<open>while (fgets(...))\<close> loop for one line.\<close>

definition config_line :: "string \<Rightarrow> Config \<Rightarrow> Config" where
  "config_line line cfg =
     (case line of
        [] \<Rightarrow> cfg
      | c # _ \<Rightarrow>
          if c = CHR ''#'' \<or> c = CHR 0x0A then cfg
          else (case scan_key_value line of
                  None \<Rightarrow> cfg
                | Some (key, val) \<Rightarrow>
                    set_option (dropWhile (\<lambda>c. c = CHR '' '') key)
                      (dropWhile (\<lambda>c. c = CHR '' '') val) cfg))"

fun read_lines :: "string list \<Rightarrow> Config \<Rightarrow> Config" where
  "read_lines [] cfg = cfg"
| "read_lines (line # rest) cfg = read_lines rest (config_line line cfg)"

text \<open>\<^verbatim>\<open>static Config config;\<close> is zero-initialised.\<close>

definition config_init :: Config where
  "config_init =
     \<lparr>device_id = [], device_name = [], panel_url = [], report_interval = 0, verbose = 0,
      poll_commands_interval = 0, num_channels = 0\<rparr>"

text \<open>
  \<^verbatim>\<open>void load_config(const char* filename)\<close>. The file is \<open>None\<close> when it cannot be
  opened (the process then exits with status 1), and otherwise the list of the lines
  that the successive calls of \<^verbatim>\<open>fgets\<close> return.
\<close>

definition load_config :: "string list option \<Rightarrow> int + Config" where
  "load_config file =
     (case file of
        None \<Rightarrow> Inl 1
      | Some lines \<Rightarrow>
          Inr (read_lines lines (config_init\<lparr>num_channels := 4, poll_commands_interval := 5\<rparr>)))"

section \<open>Switch firmware: status report\<close>

text \<open>\<^verbatim>\<open>printf\<close>'s \<^verbatim>\<open>%lu\<close> and \<^verbatim>\<open>%d\<close>.\<close>

fun show_nat :: "nat \<Rightarrow> string" where
  "show_nat n =
     (if n < 10 then [char_of (48 + n)] else show_nat (n div 10) @ [char_of (48 + n mod 10)])"

declare show_nat.simps [simp del]

definition show_int :: "int \<Rightarrow> string" where
  "show_int i = (if i < 0 then CHR ''-'' # show_nat (nat (- i)) else show_nat (nat i))"

text \<open>
  The loop of \<^verbatim>\<open>report_status\<close> that appends one entry per channel to
  \<^verbatim>\<open>channels_data\<close>, from index \<open>i\<close> on (\<^verbatim>\<open>ch\<close> has room for 15 characters).
\<close>

function channels_loop :: "Config \<Rightarrow> SwitchState \<Rightarrow> int \<Rightarrow> string \<Rightarrow> string option" where
  "channels_loop cfg s i channels_data =
     (if i < num_channels cfg
      then do {
        v \<leftarrow> get_switch cfg s i;
        channels_loop cfg s (i + 1)
          (channels_data @ take 15 (show_int v @ (if i < num_channels cfg - 1 then '','' else [])))
      }
      else Some channels_data)"
  by pat_completeness auto
termination
  by (relation "measure (\<lambda>(cfg, s, i, channels_data). nat (num_channels cfg - i))") auto

declare channels_loop.simps [simp del]

text \<open>
  The request body \<^verbatim>\<open>post_data\<close> that \<^verbatim>\<open>report_status\<close> builds with \<^verbatim>\<open>snprintf\<close>
  (at most 2047 characters).
\<close>

definition post_data :: "Config \<Rightarrow> SwitchState \<Rightarrow> string option" where
  \<open>post_data cfg s =
     do {
       body \<leftarrow> channels_loop cfg s 0 ''['';
       t0 \<leftarrow> array_get (toggle_count s) 0;
       t1 \<leftarrow> array_get (toggle_count s) 1;
       Some (take 2047 (''{"status":"online","metrics":{"channels":'' @ (body @ '']'')
                         @ '',"total_toggles":'' @ show_nat (unat (t0 + t1)) @ ''}}''))
     }\<close>

section \<open>Transport and log events\<close>

text \<open>
  What a run of either firmware does to the outside is a list of events: the lines
  written with \<^verbatim>\<open>log_message\<close> (level and message; the time stamp is left out), the
  requests handed to \<^verbatim>\<open>curl_easy_perform\<close>, the calls of \<^verbatim>\<open>sleep\<close> and the thread
  calls. Banners and other direct \<^verbatim>\<open>printf\<close> output are left out. The sensor's two
  \<^verbatim>\<open>float\<close> readings have an abstract type \<open>'f\<close>; of the body of the sensor's report
  an event keeps these two readings (the text of the body and its two \<^verbatim>\<open>sysinfo\<close>
  fields are not modelled).

  A call of \<^verbatim>\<open>register_device\<close>, \<^verbatim>\<open>report_status\<close> or \<^verbatim>\<open>report_metrics\<close> ends in one
  of three ways, which the environment decides: \<^verbatim>\<open>curl_easy_init\<close> returns no handle,
  \<^verbatim>\<open>curl_easy_perform\<close> returns an error, or it returns \<^verbatim>\<open>CURLE_OK\<close>.
\<close>

datatype curl_result = Init_failed | Perform_failed | Perform_ok

datatype 'f event =
    Log string string
  | Log_reported 'f 'f
  | Post_devices string string
  | Put_status string string
  | Put_metrics string 'f 'f
  | Sleep int
  | Pthread_create
  | Pthread_join

text \<open>Three kinds of events: registration requests, status reports, console lines.\<close>

fun is_registration :: "'f event \<Rightarrow> bool" where
  "is_registration (Post_devices url body) = True"
| "is_registration _ = False"

fun is_report :: "'f event \<Rightarrow> bool" where
  "is_report (Put_metrics url temp humidity) = True"
| "is_report (Put_status url body) = True"
| "is_report _ = False"

fun is_log :: "'f event \<Rightarrow> bool" where
  "is_log (Log level message) = True"
| "is_log (Log_reported temp humidity) = True"
| "is_log _ = False"

definition VERSION :: string where
  "VERSION = ''1.0.0''"

text \<open>\<^verbatim>\<open>int register_device()\<close> of the switch: events and return value.\<close>

definition switch_register_device :: "Config \<Rightarrow> curl_result \<Rightarrow> 'f event list \<times> int" where
  \<open>switch_register_device cfg r =
     (let url = take 511 (panel_url cfg @ ''/devices'');
          body = take 2047 (''{"name":"'' @ device_name cfg
                   @ ''","device_type":"switch","ip_address":"127.0.0.1","metadata":{"firmware_version":"''
                   @ VERSION @ ''","channels":'' @ show_int (num_channels cfg) @ ''}}'')
      in case r of
           Init_failed \<Rightarrow> ([], - 1)
         | Perform_failed \<Rightarrow> ([Post_devices url body], - 1)
         | Perform_ok \<Rightarrow> ([Post_devices url body], 0))\<close>

text \<open>\<^verbatim>\<open>int report_status()\<close>: events and return value; \<open>None\<close> for a fault.\<close>

definition report_status :: "Config \<Rightarrow> SwitchState \<Rightarrow> curl_result \<Rightarrow> ('f event list \<times> int) option" where
  "report_status cfg s r =
     do {
       body \<leftarrow> post_data cfg s;
       let url = take 511 (panel_url cfg @ ''/devices/'' @ device_id cfg);
       Some (case r of
               Init_failed \<Rightarrow> ([], - 1)
             | Perform_failed \<Rightarrow> ([Put_status url body], - 1)
             | Perform_ok \<Rightarrow> ([Put_status url body], 0))
     }"

section \<open>Switch firmware: \<^verbatim>\<open>main\<close>\<close>

text \<open>
  \<^verbatim>\<open>sscanf(input, "%s %d", cmd, &channel)\<close> with \<^verbatim>\<open>channel\<close> initialised to 0. A line of
  white space only leaves \<^verbatim>\<open>cmd\<close> uninitialised, and a word of more than 31 characters
  overflows it: both are faults. \<^verbatim>\<open>%d\<close> converts like \<open>atoi\<close> (a number beyond the range
  of \<^verbatim>\<open>int\<close> keeps its low 32 bits), and it leaves \<^verbatim>\<open>channel\<close> at 0 when no number follows,
  which is also what \<open>atoi\<close> returns for the rest of the line.
\<close>

definition scan_command :: "string \<Rightarrow> (string \<times> int) option" where
  "scan_command input =
     (let t = dropWhile isspace input;
          cmd = takeWhile (\<lambda>c. \<not> isspace c) t
      in if cmd = [] \<or> length cmd > 31 then None
         else Some (cmd, atoi (drop (length cmd) t)))"

text \<open>
  What the environment supplies to one iteration of the command loop: the line that
  \<^verbatim>\<open>fgets\<close> returns, the readings of \<^verbatim>\<open>time(NULL)\<close> inside \<^verbatim>\<open>set_switch\<close> (by channel),
  in the test of the report interval and after the report, and the outcome of the
  report's transport call.
\<close>

record cli_input =
  stdin_line :: string
  cmd_time :: "int \<Rightarrow> time_t"
  check_time :: time_t
  report_result :: curl_result
  report_time :: time_t

text \<open>
  The loop \<^verbatim>\<open>while (running)\<close> of the switch's \<^verbatim>\<open>main\<close>, over the lines still to come
  on standard input (none left: \<^verbatim>\<open>fgets\<close> returns \<^verbatim>\<open>NULL\<close>). The result has the events,
  the final value of \<^verbatim>\<open>running\<close> and the final switch state. Signals are not modelled
  here: \<^verbatim>\<open>running\<close> changes with \<^verbatim>\<open>quit\<close> and \<^verbatim>\<open>exit\<close> only. The listener thread
  touches neither the switch state nor the transport; its log line and its calls of
  \<^verbatim>\<open>sleep\<close> are not among the events.
\<close>

fun cli_loop :: "Config \<Rightarrow> cli_input list \<Rightarrow> bool \<Rightarrow> time_t \<Rightarrow> SwitchState
    \<Rightarrow> ('f event list \<times> bool \<times> SwitchState) option" where
  "cli_loop cfg [] running last_report s = Some ([], running, s)"
| "cli_loop cfg (inp # rest) running last_report s =
     (if \<not> running then Some ([], running, s)
      else let input = takeWhile (\<lambda>c. c \<noteq> CHR 0x0A) (stdin_line inp) in
        if input = [] then cli_loop cfg rest running last_report s
        else do {
          (cmd, ch) \<leftarrow> scan_command input;
          (running', s') \<leftarrow>
            (if cmd = ''quit'' \<or> cmd = ''exit'' then Some (False, s)
             else if cmd = ''status'' then do { _ \<leftarrow> print_status cfg s; Some (running, s) }
             else if cmd = ''help'' then Some (running, s)
             else do { s' \<leftarrow> execute_command cfg (cmd_time inp) cmd ch s; Some (running, s') });
          (evs, last_report') \<leftarrow>
            (if check_time inp - last_report \<ge> report_interval cfg
             then do { (evs, rc) \<leftarrow> report_status cfg s' (report_result inp);
                       Some (evs, report_time inp) }
             else Some ([], last_report));
          (tr, running'', s'') \<leftarrow> cli_loop cfg rest running' last_report' s';
          Some (evs @ tr, running'', s'')
        })"

text \<open>
  The switch's \<^verbatim>\<open>main\<close> from the registration on (after the arguments are parsed and
  the configuration is loaded). The result is \<open>None\<close> for a fault; otherwise the events
  and the exit status, where no exit status means that \<^verbatim>\<open>main\<close> does not return: it
  waits in \<^verbatim>\<open>pthread_join\<close> for the listener thread, which runs as long as \<^verbatim>\<open>running\<close>
  is set.
\<close>

definition switch_main :: "Config \<Rightarrow> curl_result \<Rightarrow> cli_input list \<Rightarrow> ('f event list \<times> int option) option" where
  "switch_main cfg reg inputs =
     do {
       let registration =
         (if device_id cfg = []
          then Log ''INFO'' ''Registering device...'' # fst (switch_register_device cfg reg)
          else []);
       (tr, running, s) \<leftarrow> cli_loop cfg inputs True 0 switch_state_init;
       Some (registration @ [Log ''INFO'' ''Starting switch firmware...'', Pthread_create] @ tr
               @ [Log ''INFO'' ''Shutting down...'', Pthread_join],
             if running then None else Some 0)
     }"

section \<open>Sensor firmware\<close>

text \<open>\<^verbatim>\<open>int register_device()\<close> of the sensor.\<close>

definition sensor_register_device :: "Sensor_Config \<Rightarrow> curl_result \<Rightarrow> 'f event list \<times> int" where
  \<open>sensor_register_device cfg r =
     (let url = take 511 (panel_url cfg @ ''/devices'');
          body = take 2047 (''{"name":"'' @ device_name cfg
                   @ ''","device_type":"sensor","ip_address":"127.0.0.1","metadata":{"firmware_version":"''
                   @ VERSION @ ''"}}'')
      in case r of
           Init_failed \<Rightarrow> ([Log ''ERROR'' ''Failed to initialize CURL''], - 1)
         | Perform_failed \<Rightarrow>
             ([Post_devices url body, Log ''ERROR'' ''Device registration failed''], - 1)
         | Perform_ok \<Rightarrow>
             ([Post_devices url body, Log ''INFO'' ''Device registered successfully''], 0))\<close>

text \<open>The \<^verbatim>\<open>url\<close> that \<^verbatim>\<open>report_metrics\<close> builds with \<^verbatim>\<open>snprintf\<close> (at most 511 characters).\<close>

definition report_url :: "Sensor_Config \<Rightarrow> string" where
  "report_url cfg = take 511 (panel_url cfg @ ''/devices/'' @ device_id cfg)"

text \<open>\<^verbatim>\<open>int report_metrics(float temp, float humidity)\<close>\<close>

definition report_metrics :: "Sensor_Config \<Rightarrow> curl_result \<Rightarrow> 'f \<Rightarrow> 'f \<Rightarrow> 'f event list \<times> int" where
  "report_metrics cfg r temp humidity =
     (let url = report_url cfg
      in case r of
           Init_failed \<Rightarrow> ([Log ''ERROR'' ''Failed to initialize CURL''], - 1)
         | Perform_failed \<Rightarrow>
             ([Put_metrics url temp humidity, Log ''WARN'' ''Failed to report metrics''], - 1)
         | Perform_ok \<Rightarrow>
             (Put_metrics url temp humidity
                # (if verbose cfg \<noteq> 0 then [Log_reported temp humidity] else []), 0))"

text \<open>
  The environment of a run of the sensor: the outcome of the registration call, the
  outcome of the report of each cycle and the two readings of each cycle (by cycle
  number), and the value of the flag \<^verbatim>\<open>running\<close>, which a signal handler clears, each
  time the program reads it (by the number of earlier reads).
\<close>

record 'f sensor_env =
  register_result :: curl_result
  report_result_at :: "int \<Rightarrow> curl_result"
  sample_at :: "int \<Rightarrow> 'f \<times> 'f"
  running_at :: "nat \<Rightarrow> bool"

text \<open>
  \<^verbatim>\<open>for (int i = 0; i < config.report_interval && running; i++) sleep(1);\<close> from \<open>i\<close> on,
  after \<open>reads\<close> reads of \<^verbatim>\<open>running\<close>: the events and the new number of reads.
\<close>

function sleep_loop :: "Sensor_Config \<Rightarrow> (nat \<Rightarrow> bool) \<Rightarrow> int \<Rightarrow> nat \<Rightarrow> 'f event list \<times> nat" where
  "sleep_loop cfg run i reads =
     (if i < report_interval cfg then
        (if run reads
         then (let (evs, reads') = sleep_loop cfg run (i + 1) (Suc reads)
               in (Sleep 1 # evs, reads'))
         else ([], Suc reads))
      else ([], reads))"
  by pat_completeness auto
termination
  by (relation "measure (\<lambda>(cfg, run, i, reads). nat (report_interval cfg - i))") auto

declare sleep_loop.simps [simp del]

text \<open>
  The loop \<^verbatim>\<open>while (running)\<close> of the sensor's \<^verbatim>\<open>main\<close>. It ends only when \<^verbatim>\<open>running\<close> is
  read as 0, so the model runs it for at most \<open>fuel\<close> iterations: the result has the
  events so far and whether the loop has ended.
\<close>

fun sensor_loop :: "nat \<Rightarrow> Sensor_Config \<Rightarrow> 'f sensor_env \<Rightarrow> int \<Rightarrow> nat \<Rightarrow> 'f event list \<times> bool" where
  "sensor_loop 0 cfg env cycle reads = ([], False)"
| "sensor_loop (Suc fuel) cfg env cycle reads =
     (if running_at env reads then
        (let cycle' = cycle + 1;
             (temperature, humidity) = sample_at env cycle';
             (evs, rc) = report_metrics cfg (report_result_at env cycle') temperature humidity;
             (sl, reads') = sleep_loop cfg (running_at env) 0 (Suc reads);
             (tr, ended) = sensor_loop fuel cfg env cycle' reads'
         in (evs @ sl @ tr, ended))
      else ([], True))"

text \<open>
  The sensor's \<^verbatim>\<open>main\<close> from the line \<^verbatim>\<open>"Starting sensor monitoring..."\<close> on: events and
  exit status (none while the loop has not ended).
\<close>

definition sensor_monitoring :: "nat \<Rightarrow> Sensor_Config \<Rightarrow> 'f sensor_env \<Rightarrow> 'f event list \<times> int option" where
  "sensor_monitoring fuel cfg env =
     (let (tr, ended) = sensor_loop fuel cfg env 0 0
      in if ended
         then (Log ''INFO'' ''Starting sensor monitoring...'' # tr
                 @ [Log ''INFO'' ''Shutting down sensor firmware...''], Some 0)
         else (Log ''INFO'' ''Starting sensor monitoring...'' # tr, None))"

text \<open>
  The sensor's \<^verbatim>\<open>main\<close> from the registration on (after the arguments are parsed and
  the configuration is loaded).
\<close>

definition sensor_main :: "nat \<Rightarrow> Sensor_Config \<Rightarrow> 'f sensor_env \<Rightarrow> 'f event list \<times> int option" where
  "sensor_main fuel cfg env =
     (if device_id cfg = [] then
        (let (evs, rc) = sensor_register_device cfg (register_result env)
         in if rc \<noteq> 0
            then (Log ''INFO'' ''Registering device with panel...'' # evs
                    @ [Log ''ERROR'' ''Failed to register device''], Some 1)
            else (let (tr, status) = sensor_monitoring fuel cfg env
                  in (Log ''INFO'' ''Registering device with panel...'' # evs @ tr, status)))
      else sensor_monitoring fuel cfg env)"

section \<open>Example inputs\<close>

text \<open>
  A sensor configuration, an environment in which the registration and the report of
  the first cycle fail and \<^verbatim>\<open>running\<close> is cleared before its fifth read (readings are
  integers here), a switch configuration with four channels and no device id, and two
  lines of input for the switch, \<^verbatim>\<open>on 2\<close> and \<^verbatim>\<open>quit\<close>.
\<close>

definition example_sensor_config :: Sensor_Config where
  "example_sensor_config =
     \<lparr>device_id = ''sensor-1'', device_name = ''probe'', panel_url = ''http://panel/api'',
      report_interval = 1, verbose = 0\<rparr>"

definition example_env :: "int sensor_env" where
  "example_env =
     \<lparr>register_result = Perform_failed,
      report_result_at = (\<lambda>k. if k = 1 then Perform_failed else Perform_ok),
      sample_at = (\<lambda>k. (20 + k, 40 + k)),
      running_at = (\<lambda>n. n < 4)\<rparr>"

definition example_switch_config :: Config where
  "example_switch_config = config_init\<lparr>panel_url := ''http://panel/api'', num_channels := 4\<rparr>"

definition example_inputs :: "cli_input list" where
  "example_inputs =
     [\<lparr>stdin_line = ''on 2'' @ [CHR 0x0A], cmd_time = (\<lambda>i. 100), check_time = 100,
       report_result = Perform_failed, report_time = 100\<rparr>,
      \<lparr>stdin_line = ''quit'' @ [CHR 0x0A], cmd_time = (\<lambda>i. 101), check_time = 101,
       report_result = Perform_ok, report_time = 101\<rparr>]"

section \<open>The switch state: helper facts\<close>

text \<open>
  A valid index is within the arrays when the configuration comes from \<^verbatim>\<open>load_config\<close>
  (\<open>wf_config\<close>) and the arrays have their declared length (\<open>wf_state\<close>).
\<close>

lemma set_switch_in_range:
  assumes "wf_config cfg" "wf_state s" "0 \<le> i" "i < num_channels cfg"
  shows "set_switch cfg now i v s =
    Some (if channel s ! nat i \<noteq> v
          then s\<lparr>channel := (channel s)[nat i := v], last_toggle := (last_toggle s)[nat i := now],
                 toggle_count := (toggle_count s)[nat i := toggle_count s ! nat i + 1]\<rparr>
          else s)"
  using assms
  by (simp add: set_switch_def wf_config_def wf_state_def array_get_def array_set_def)

lemma set_switch_wf:
  assumes "wf_state s" "set_switch cfg now ch v s = Some s'"
  shows "wf_state s'"
  using assms
  by (auto simp: set_switch_def wf_state_def array_get_def array_set_def
      split: if_splits bind_splits)

lemma set_switch_count:
  assumes "set_switch cfg now ch v s = Some s'"
  shows "toggle_count s' ! j = toggle_count s ! j \<or> toggle_count s' ! j = toggle_count s ! j + 1"
  using assms
  by (auto simp: set_switch_def array_get_def array_set_def nth_list_update
      split: if_splits bind_splits)

lemma set_switch_count_other:
  assumes "set_switch cfg now ch v s = Some s'" "int j \<noteq> ch"
  shows "toggle_count s' ! j = toggle_count s ! j"
  using assms
  by (auto simp: set_switch_def array_get_def array_set_def nth_list_update
      split: if_splits bind_splits)

lemma set_all_count_below:
  "set_all cfg t v i s = Some s' \<Longrightarrow> int j < i \<Longrightarrow> toggle_count s' ! j = toggle_count s ! j"
proof (induction cfg t v i s rule: set_all.induct)
  case (1 cfg time_at state i s)
  show ?case
  proof (cases "i < num_channels cfg")
    case True
    with "1.prems"(1) obtain s1 where s1: "set_switch cfg (time_at i) i state s = Some s1"
      and rest: "set_all cfg time_at state (i + 1) s1 = Some s'"
      by (subst (asm) set_all.simps) (auto split: bind_splits)
    have "toggle_count s' ! j = toggle_count s1 ! j"
      using "1.IH"[OF True s1 rest] "1.prems"(2) by simp
    moreover have "toggle_count s1 ! j = toggle_count s ! j"
      using set_switch_count_other[OF s1] "1.prems"(2) by simp
    ultimately show ?thesis by simp
  next
    case False
    with "1.prems"(1) show ?thesis by (subst (asm) set_all.simps) simp
  qed
qed

lemma set_all_count:
  "set_all cfg t v i s = Some s' \<Longrightarrow>
     toggle_count s' ! j = toggle_count s ! j \<or> toggle_count s' ! j = toggle_count s ! j + 1"
proof (induction cfg t v i s rule: set_all.induct)
  case (1 cfg time_at state i s)
  show ?case
  proof (cases "i < num_channels cfg")
    case True
    with "1.prems"(1) obtain s1 where s1: "set_switch cfg (time_at i) i state s = Some s1"
      and rest: "set_all cfg time_at state (i + 1) s1 = Some s'"
      by (subst (asm) set_all.simps) (auto split: bind_splits)
    show ?thesis
    proof (cases "int j = i")
      case True
      then have "toggle_count s' ! j = toggle_count s1 ! j"
        using set_all_count_below[OF rest, of j] by simp
      then show ?thesis using set_switch_count[OF s1, of j] by simp
    next
      case False
      then have "toggle_count s1 ! j = toggle_count s ! j"
        using set_switch_count_other[OF s1] by simp
      then show ?thesis using "1.IH"[OF True s1 rest] by simp
    qed
  next
    case False
    with "1.prems"(1) show ?thesis by (subst (asm) set_all.simps) simp
  qed
qed

lemma toggle_switch_count:
  "toggle_switch cfg now ch s = Some s' \<Longrightarrow>
     toggle_count s' ! j = toggle_count s ! j \<or> toggle_count s' ! j = toggle_count s ! j + 1"
  by (auto simp: toggle_switch_def split: bind_splits dest: set_switch_count)

lemma execute_command_count:
  "execute_command cfg t cmd ch s = Some s' \<Longrightarrow>
     toggle_count s' ! j = toggle_count s ! j \<or> toggle_count s' ! j = toggle_count s ! j + 1"
  unfolding execute_command_def
  by (auto simp: bind_eq_Some_conv split: if_splits
      dest: set_switch_count toggle_switch_count set_all_count)

text \<open>
  The commands keep the three arrays at their length, so every state that a run reaches
  from the initial one satisfies \<open>wf_state\<close>.
\<close>

lemma set_all_wf:
  "wf_state s \<Longrightarrow> set_all cfg t v i s = Some s' \<Longrightarrow> wf_state s'"
proof (induction cfg t v i s rule: set_all.induct)
  case (1 cfg time_at state i s)
  show ?case
  proof (cases "i < num_channels cfg")
    case True
    with "1.prems"(2) obtain s1 where s1: "set_switch cfg (time_at i) i state s = Some s1"
      and rest: "set_all cfg time_at state (i + 1) s1 = Some s'"
      by (subst (asm) set_all.simps) (auto split: bind_splits)
    show ?thesis
      using "1.IH" [OF True s1 set_switch_wf [OF "1.prems"(1) s1] rest] .
  next
    case False
    with "1.prems" show ?thesis by (subst (asm) set_all.simps) simp
  qed
qed

lemma execute_command_wf:
  "wf_state s \<Longrightarrow> execute_command cfg t cmd ch s = Some s' \<Longrightarrow> wf_state s'"
  unfolding execute_command_def toggle_switch_def
  by (auto simp: bind_eq_Some_conv split: if_splits dest: set_switch_wf set_all_wf)

lemma word_le_succ: "(x :: ulong) \<noteq> - 1 \<Longrightarrow> x \<le> x + 1"
  by (meson inc_less_eq_triv_imp nle_le)

lemma unat_succ: "(x :: ulong) \<noteq> - 1 \<Longrightarrow> unat (x + 1) = unat x + 1"
  using word_le_succ [of x] unat_plus_simple [of x 1] by simp

lemma toggle_switch_in_range:
  assumes "wf_config cfg" "wf_state s" "0 \<le> i" "i < num_channels cfg"
  shows "toggle_switch cfg now i s =
    Some (s\<lparr>channel := (channel s)[nat i := c_not (channel s ! nat i)],
            last_toggle := (last_toggle s)[nat i := now],
            toggle_count := (toggle_count s)[nat i := toggle_count s ! nat i + 1]\<rparr>)"
proof -
  have lt: "i < int (length (channel s))"
    using assms unfolding wf_state_def wf_config_def by linarith
  have ne: "channel s ! nat i \<noteq> c_not (channel s ! nat i)"
    by (simp add: c_not_def)
  show ?thesis
    using assms lt ne
    by (simp add: toggle_switch_def get_switch_def array_get_def set_switch_in_range)
qed

lemma wf_config_4: "wf_config (config_init\<lparr>num_channels := 4\<rparr>)"
  by (simp add: wf_config_def MAX_CHANNELS_def)

lemma wf_state_init: "wf_state switch_state_init"
  by (simp add: wf_state_def switch_state_init_def MAX_CHANNELS_def)

section \<open>The switch state: properties\<close>

text \<open>
  C1. With four channels, all off and all counters zero, the commands \<^verbatim>\<open>on 2\<close>,
  \<^verbatim>\<open>toggle 2\<close>, \<^verbatim>\<open>off 2\<close>, \<^verbatim>\<open>all_on\<close> executed one after the other end without a fault
  in a state whose channels are all on and whose toggle count of channel 2 is 3.
\<close>

theorem scenario_on_toggle_off_all_on:
  "\<exists>s. do {
          s1 \<leftarrow> execute_command (cfg\<lparr>num_channels := 4\<rparr>) t1 ''on'' 2 switch_state_init;
          s2 \<leftarrow> execute_command (cfg\<lparr>num_channels := 4\<rparr>) t2 ''toggle'' 2 s1;
          s3 \<leftarrow> execute_command (cfg\<lparr>num_channels := 4\<rparr>) t3 ''off'' 2 s2;
          execute_command (cfg\<lparr>num_channels := 4\<rparr>) t4 ''all_on'' 0 s3
        } = Some s
      \<and> channel s = [1, 1, 1, 1] \<and> toggle_count s ! 2 = 3
      \<and> toggle_count s = [1, 1, 3, 1]"
  by (simp add: execute_command_def toggle_switch_def get_switch_def set_switch_def
      set_all.simps array_get_def array_set_def switch_state_init_def c_not_def)

text \<open>
  C2, as the code has it. For an index outside \<open>[0, num_channels)\<close> and any value,
  \<^verbatim>\<open>set_switch\<close> returns without a fault and leaves the whole switch state (values, times
  of last change, toggle counts) as it was, and \<^verbatim>\<open>get_switch\<close> returns 0 without a
  fault; so do \<^verbatim>\<open>toggle_switch\<close> and the commands \<^verbatim>\<open>on\<close>, \<^verbatim>\<open>off\<close> and \<^verbatim>\<open>toggle\<close>.
  Nothing tells the caller that the index was out of range.
\<close>

theorem out_of_range_is_silent_noop:
  assumes "ch < 0 \<or> ch \<ge> num_channels cfg"
  shows "set_switch cfg now ch v s = Some s \<and> get_switch cfg s ch = Some 0
         \<and> toggle_switch cfg now ch s = Some s
         \<and> execute_command cfg t ''on'' ch s = Some s
         \<and> execute_command cfg t ''off'' ch s = Some s
         \<and> execute_command cfg t ''toggle'' ch s = Some s"
  using assms
  by (simp add: set_switch_def get_switch_def toggle_switch_def execute_command_def)

text \<open>The same at the indices 99 and -1 of a switch with four channels.\<close>

theorem out_of_range_is_silent_noop_witness:
  "set_switch (config_init\<lparr>num_channels := 4\<rparr>) 7 99 1 switch_state_init = Some switch_state_init
   \<and> get_switch (config_init\<lparr>num_channels := 4\<rparr>) switch_state_init (- 1) = Some 0"
  using out_of_range_is_silent_noop [of 99 "config_init\<lparr>num_channels := 4\<rparr>" 7 1 switch_state_init]
    out_of_range_is_silent_noop [of "- 1" "config_init\<lparr>num_channels := 4\<rparr>" 7 1 switch_state_init]
  by simp

text \<open>
  C2 as stated fails: the caller gets no report of the index being out of range. With
  four channels, all off, \<^verbatim>\<open>get_switch(99)\<close> returns what \<^verbatim>\<open>get_switch(0)\<close> returns, the
  value 0 of a channel that is off, and \<^verbatim>\<open>set_switch(99, 0)\<close>, which returns nothing,
  has the effect of the valid call \<^verbatim>\<open>set_switch(0, 0)\<close>.
\<close>

theorem out_of_range_not_reported:
  "get_switch (config_init\<lparr>num_channels := 4\<rparr>) switch_state_init 99
     = get_switch (config_init\<lparr>num_channels := 4\<rparr>) switch_state_init 0
   \<and> get_switch (config_init\<lparr>num_channels := 4\<rparr>) switch_state_init 99 = Some 0
   \<and> set_switch (config_init\<lparr>num_channels := 4\<rparr>) 7 99 0 switch_state_init
     = set_switch (config_init\<lparr>num_channels := 4\<rparr>) 7 0 0 switch_state_init"
  by (simp add: get_switch_def set_switch_def array_get_def switch_state_init_def config_init_def)

text \<open>
  C3, as the code has it. For a valid channel index \<open>i\<close>, every operation
  (\<^verbatim>\<open>set_switch\<close>, \<^verbatim>\<open>toggle_switch\<close>, \<^verbatim>\<open>execute_command\<close>, on any channel) leaves the
  toggle count of \<open>i\<close> as it was or adds 1 to it in 64-bit arithmetic; so the count
  does not decrease unless it was at its maximum \<open>2^64 - 1\<close>. A \<^verbatim>\<open>set_switch\<close> on \<open>i\<close>
  with a value other than the stored one, and a \<^verbatim>\<open>toggle_switch\<close> on \<open>i\<close>, add exactly 1
  (modulo \<open>2^64\<close>; as a number too when the count was below the maximum).
\<close>

theorem toggle_count_steps:
  assumes "wf_config cfg" "wf_state s" "0 \<le> i" "i < num_channels cfg"
    and op: "set_switch cfg now ch v s = Some s' \<or> toggle_switch cfg now ch s = Some s'
         \<or> execute_command cfg t cmd ch s = Some s'"
  shows "(toggle_count s' ! nat i = toggle_count s ! nat i
            \<or> toggle_count s' ! nat i = toggle_count s ! nat i + 1)
       \<and> (toggle_count s ! nat i \<noteq> - 1 \<longrightarrow> toggle_count s ! nat i \<le> toggle_count s' ! nat i)
       \<and> (\<forall>w. w \<noteq> channel s ! nat i \<longrightarrow>
             (\<exists>s2. set_switch cfg now i w s = Some s2
                  \<and> toggle_count s2 ! nat i = toggle_count s ! nat i + 1))
       \<and> (\<exists>s3. toggle_switch cfg now i s = Some s3
                  \<and> toggle_count s3 ! nat i = toggle_count s ! nat i + 1)
       \<and> (toggle_count s ! nat i \<noteq> - 1 \<longrightarrow>
             unat (toggle_count s ! nat i + 1) = unat (toggle_count s ! nat i) + 1)"
proof -
  have len: "nat i < length (toggle_count s)"
  proof -
    have "i < int (length (toggle_count s))"
      using assms(1,2,4) unfolding wf_state_def wf_config_def by linarith
    then show ?thesis using assms(3) by (simp add: nat_less_iff)
  qed
  have step: "toggle_count s' ! nat i = toggle_count s ! nat i
            \<or> toggle_count s' ! nat i = toggle_count s ! nat i + 1"
    using op set_switch_count toggle_switch_count execute_command_count by blast
  then have mono: "toggle_count s ! nat i \<noteq> - 1 \<Longrightarrow> toggle_count s ! nat i \<le> toggle_count s' ! nat i"
    using word_le_succ [of "toggle_count s ! nat i"] by auto
  have chg: "\<exists>s2. set_switch cfg now i w s = Some s2
                  \<and> toggle_count s2 ! nat i = toggle_count s ! nat i + 1"
    if "w \<noteq> channel s ! nat i" for w
    using that len assms(1-4) by (simp add: set_switch_in_range)
  have tog: "\<exists>s3. toggle_switch cfg now i s = Some s3
                  \<and> toggle_count s3 ! nat i = toggle_count s ! nat i + 1"
    using len assms(1-4) by (simp add: toggle_switch_in_range)
  show ?thesis
    using step mono chg tog unat_succ by blast
qed

text \<open>The same for channel 2 of four, from the initial state, under \<^verbatim>\<open>all_on\<close>.\<close>

theorem toggle_count_steps_witness:
  "execute_command (config_init\<lparr>num_channels := 4\<rparr>) (\<lambda>i. 7) ''all_on'' 0 switch_state_init
     = Some \<lparr>channel = [1, 1, 1, 1], last_toggle = [7, 7, 7, 7], toggle_count = [1, 1, 1, 1]\<rparr>
   \<and> toggle_count \<lparr>channel = [1, 1, 1, 1], last_toggle = [7, 7, 7, 7], toggle_count = [1, 1, 1, 1]\<rparr> ! nat 2
       = toggle_count switch_state_init ! nat 2 + 1
   \<and> (\<exists>s3. toggle_switch (config_init\<lparr>num_channels := 4\<rparr>) 7 2 switch_state_init = Some s3
          \<and> toggle_count s3 ! nat 2 = toggle_count switch_state_init ! nat 2 + 1)"
proof -
  let ?s' = "\<lparr>channel = [1, 1, 1, 1], last_toggle = [7, 7, 7, 7], toggle_count = [1, 1, 1, 1::ulong]\<rparr>"
  have run: "execute_command (config_init\<lparr>num_channels := 4\<rparr>) (\<lambda>i. 7) ''all_on'' 0 switch_state_init
     = Some ?s'"
    by (simp add: execute_command_def set_switch_def set_all.simps array_get_def array_set_def
        switch_state_init_def config_init_def)
  have val: "toggle_count ?s' ! nat 2 = toggle_count switch_state_init ! nat 2 + 1"
    by (simp add: switch_state_init_def numeral_2_eq_2)
  show ?thesis
    using run val
      toggle_count_steps [OF wf_config_4 wf_state_init, of 2 7 0 1 ?s' "\<lambda>i. 7" "''all_on''"]
    by simp
qed

text \<open>
  C3 as stated fails where the counter wraps: with the toggle count of channel 0 at
  \<open>2^64 - 1\<close> and the channel off, \<^verbatim>\<open>set_switch(0, 1)\<close> leaves the count at 0.
\<close>

theorem toggle_count_wraps:
  "\<exists>s'. set_switch (config_init\<lparr>num_channels := 4\<rparr>) 7 0 1
           (switch_state_init\<lparr>toggle_count := [18446744073709551615, 0, 0, 0]\<rparr>) = Some s'
        \<and> toggle_count s' ! 0 = 0
        \<and> toggle_count s' ! 0 < toggle_count (switch_state_init\<lparr>toggle_count := [18446744073709551615, 0, 0, 0]\<rparr>) ! 0"
  by (simp add: set_switch_def array_get_def array_set_def switch_state_init_def config_init_def)

text \<open>
  C4. For a valid channel index, \<^verbatim>\<open>set_switch\<close> with the value already stored ends
  without a fault and leaves the whole switch state as it was: no toggle count, no time
  of last change and no value changes, of this channel or any other.
\<close>

theorem same_value_write_changes_nothing:
  assumes "wf_config cfg" "wf_state s" "0 \<le> i" "i < num_channels cfg"
  shows "set_switch cfg now i (channel s ! nat i) s = Some s"
  using assms by (simp add: set_switch_in_range)

text \<open>The same for channel 2 of four, which is off, written with 0.\<close>

theorem same_value_write_changes_nothing_witness:
  "set_switch (config_init\<lparr>num_channels := 4\<rparr>) 7 2 0 switch_state_init = Some switch_state_init"
proof -
  have "wf_config (config_init\<lparr>num_channels := 4\<rparr>)" by (simp add: wf_config_def MAX_CHANNELS_def)
  moreover have "wf_state switch_state_init"
    by (simp add: wf_state_def switch_state_init_def MAX_CHANNELS_def)
  moreover have "channel switch_state_init ! nat 2 = 0" 
    by (simp add: switch_state_init_def numeral_2_eq_2)
  ultimately show ?thesis
    using same_value_write_changes_nothing [of "config_init\<lparr>num_channels := 4\<rparr>" switch_state_init 2 7]
    by simp
qed

text \<open>
  C5. For a valid channel index \<open>i\<close> and any value \<open>v\<close>, \<^verbatim>\<open>set_switch(i, v)\<close> ends
  without a fault, and \<^verbatim>\<open>get_switch(i)\<close> on the resulting state returns \<open>v\<close>.
\<close>

theorem write_then_read:
  assumes "wf_config cfg" "wf_state s" "0 \<le> i" "i < num_channels cfg"
  shows "\<exists>s'. set_switch cfg now i v s = Some s' \<and> get_switch cfg s' i = Some v"
proof -
  have lt: "i < int (length (channel s))"
    using assms unfolding wf_state_def wf_config_def by linarith
  then have len: "nat i < length (channel s)"
    using assms(3) by (simp add: nat_less_iff)
  show ?thesis
    using assms lt len
    by (simp add: set_switch_in_range get_switch_def array_get_def)
qed

text \<open>The same for channel 3 of four, written with 1.\<close>

theorem write_then_read_witness:
  "\<exists>s'. set_switch (config_init\<lparr>num_channels := 4\<rparr>) 7 3 1 switch_state_init = Some s'
        \<and> get_switch (config_init\<lparr>num_channels := 4\<rparr>) s' 3 = Some 1"
proof -
  have "wf_config (config_init\<lparr>num_channels := 4\<rparr>)" by (simp add: wf_config_def MAX_CHANNELS_def)
  moreover have "wf_state switch_state_init"
    by (simp add: wf_state_def switch_state_init_def MAX_CHANNELS_def)
  ultimately show ?thesis
    using write_then_read [of "config_init\<lparr>num_channels := 4\<rparr>" switch_state_init 3 7 1]
    by simp
qed

section \<open>\<^verbatim>\<open>load_config\<close>: the number of channels\<close>

lemma long_to_int_range: "- 2147483648 \<le> long_to_int x \<and> long_to_int x \<le> 2147483647"
proof -
  have "0 \<le> (x + 2147483648) mod 4294967296" by simp
  moreover have "(x + 2147483648) mod 4294967296 < 4294967296" by simp
  ultimately show ?thesis unfolding long_to_int_def by linarith
qed

lemma atoi_range: "- 2147483648 \<le> atoi v \<and> atoi v \<le> 2147483647"
  by (simp only: atoi_def long_to_int_range)

lemma set_option_bounds:
  assumes "- 2147483648 \<le> num_channels cfg" "num_channels cfg \<le> MAX_CHANNELS"
  shows "- 2147483648 \<le> num_channels (set_option k v cfg)
       \<and> num_channels (set_option k v cfg) \<le> MAX_CHANNELS"
  using assms atoi_range [of v]
  by (simp add: set_option_def Let_def MAX_CHANNELS_def)

lemma config_line_bounds:
  assumes "- 2147483648 \<le> num_channels cfg" "num_channels cfg \<le> MAX_CHANNELS"
  shows "- 2147483648 \<le> num_channels (config_line line cfg)
       \<and> num_channels (config_line line cfg) \<le> MAX_CHANNELS"
  using assms set_option_bounds [OF assms]
  by (simp add: config_line_def split: list.splits option.splits)

lemma read_lines_bounds:
  "- 2147483648 \<le> num_channels cfg \<Longrightarrow> num_channels cfg \<le> MAX_CHANNELS \<Longrightarrow>
     - 2147483648 \<le> num_channels (read_lines ls cfg)
       \<and> num_channels (read_lines ls cfg) \<le> MAX_CHANNELS"
proof (induction ls arbitrary: cfg)
  case Nil
  then show ?case by simp
next
  case (Cons line ls)
  show ?case
    using Cons.IH [of "config_line line cfg"] config_line_bounds [OF Cons.prems, of line]
    by simp
qed

lemma load_config_bounds:
  assumes "load_config content = Inr cfg"
  shows "- 2147483648 \<le> num_channels cfg \<and> num_channels cfg \<le> MAX_CHANNELS"
proof -
  from assms obtain ls where
    cfg: "cfg = read_lines ls (config_init\<lparr>num_channels := 4, poll_commands_interval := 5\<rparr>)"
    by (auto simp: load_config_def split: option.splits)
  show ?thesis
    unfolding cfg by (rule read_lines_bounds) (simp_all add: MAX_CHANNELS_def)
qed

lemma load_config_wf: "load_config content = Inr cfg \<Longrightarrow> wf_config cfg"
  using load_config_bounds [of content cfg] by (simp add: wf_config_def)





section \<open>The status report of the switch\<close>

lemma get_switch_toggle_count [simp]:
  "get_switch cfg (s\<lparr>toggle_count := t\<rparr>) i = get_switch cfg s i"
  by (simp add: get_switch_def)

lemma channels_loop_toggle_count:
  "channels_loop cfg (s\<lparr>toggle_count := t\<rparr>) i acc = channels_loop cfg s i acc"
proof (induction cfg s i acc rule: channels_loop.induct)
  case (1 cfg s i channels_data)
  show ?case
  proof (cases "i < num_channels cfg")
    case True
    show ?thesis
    proof (cases "get_switch cfg s i")
      case None
      then show ?thesis
        by (subst channels_loop.simps, subst (2) channels_loop.simps) (simp add: True)
    next
      case (Some v)
      show ?thesis
        by (subst channels_loop.simps, subst (2) channels_loop.simps)
          (simp only: get_switch_toggle_count True Some if_True Option.bind.bind_lunit "1.IH" [OF True Some])
    qed
  next
    case False
    then show ?thesis
      by (subst channels_loop.simps, subst (2) channels_loop.simps) simp
  qed
qed

lemma channels_loop_total:
  assumes "wf_config cfg" "wf_state s" "0 \<le> i"
  shows "\<exists>b. channels_loop cfg s i acc = Some b"
  using assms
proof (induction cfg s i acc rule: channels_loop.induct)
  case (1 cfg s i channels_data)
  show ?case
  proof (cases "i < num_channels cfg")
    case True
    have "i < int (length (channel s))"
      using True "1.prems" unfolding wf_state_def wf_config_def by linarith
    then have g: "get_switch cfg s i = Some (channel s ! nat i)"
      using True "1.prems"(3) by (simp add: get_switch_def array_get_def)
    from "1.IH"[OF True g] "1.prems"
    obtain b where "channels_loop cfg s (i + 1)
        (channels_data @ take 15 (show_int (channel s ! nat i) @ (if i < num_channels cfg - 1 then '','' else []))) = Some b"
      by auto
    then show ?thesis
      by (subst channels_loop.simps) (simp add: True g)
  next
    case False
    then show ?thesis by (subst channels_loop.simps) simp
  qed
qed

lemma wf_config_example: "wf_config example_switch_config"
  by (simp add: wf_config_def example_switch_config_def MAX_CHANNELS_def)

lemma example_report:
  \<open>(report_status example_switch_config
       \<lparr>channel = [1, 1, 1, 1], last_toggle = [7, 7, 7, 7], toggle_count = [2, 3, 1, 1]\<rparr> Perform_ok
      :: (int event list \<times> int) option)
     = Some ([Put_status ''http://panel/api/devices/''
               ''{"status":"online","metrics":{"channels":[1,1,1,1],"total_toggles":5}}''], 0)\<close>
  by code_simp

text \<open>
  C10. For every configuration that \<^verbatim>\<open>load_config\<close> can produce, \<^verbatim>\<open>report_status\<close> ends
  without a fault; when curl gives a handle it sends exactly one request, whose body
  gives as \<^verbatim>\<open>total_toggles\<close> the sum (in 64-bit arithmetic) of the toggle counts of the
  channels 0 and 1, after the values of the channels below \<^verbatim>\<open>config.num_channels\<close>; with
  no handle it sends nothing. Neither the body nor the report depends on the toggle
  counts of the channels 2 and 3.
\<close>

theorem total_toggles_is_count_0_plus_count_1:
  assumes "wf_config cfg" "wf_state s"
  shows \<open>\<exists>chs body.
           channels_loop cfg s 0 ''['' = Some chs
         \<and> body = take 2047 (''{"status":"online","metrics":{"channels":'' @ (chs @ '']'')
                    @ '',"total_toggles":''
                    @ show_nat (unat (toggle_count s ! 0 + toggle_count s ! 1)) @ ''}}'')
         \<and> post_data cfg s = Some body
         \<and> (report_status cfg s Perform_ok :: ('f event list \<times> int) option)
             = Some ([Put_status (take 511 (panel_url cfg @ ''/devices/'' @ device_id cfg)) body], 0)
         \<and> (report_status cfg s Perform_failed :: ('f event list \<times> int) option)
             = Some ([Put_status (take 511 (panel_url cfg @ ''/devices/'' @ device_id cfg)) body], - 1)
         \<and> (report_status cfg s Init_failed :: ('f event list \<times> int) option) = Some ([], - 1)
         \<and> post_data cfg (s\<lparr>toggle_count := (toggle_count s)[2 := a, 3 := b]\<rparr>) = Some body
         \<and> (\<forall>r. report_status cfg (s\<lparr>toggle_count := (toggle_count s)[2 := a, 3 := b]\<rparr>) r
                = (report_status cfg s r :: ('f event list \<times> int) option))\<close>
proof -
  obtain chs where chs: "channels_loop cfg s 0 ''['' = Some chs"
    using channels_loop_total [OF assms, of 0 "''[''"] by auto
  define body where \<open>body = take 2047 (''{"status":"online","metrics":{"channels":'' @ (chs @ '']'')
                    @ '',"total_toggles":''
                    @ show_nat (unat (toggle_count s ! 0 + toggle_count s ! 1)) @ ''}}'')\<close>
  have len: "length (toggle_count s) = 4"
    using assms(2) by (simp add: wf_state_def MAX_CHANNELS_def)
  have pd: "post_data cfg s = Some body"
    by (simp add: post_data_def chs array_get_def len body_def)
  have indep: "post_data cfg (s\<lparr>toggle_count := (toggle_count s)[2 := a, 3 := b]\<rparr>) = post_data cfg s"
    by (simp add: post_data_def channels_loop_toggle_count array_get_def)
  have ok: "(report_status cfg s Perform_ok :: ('f event list \<times> int) option)
             = Some ([Put_status (take 511 (panel_url cfg @ ''/devices/'' @ device_id cfg)) body], 0)"
    by (simp add: report_status_def pd)
  have failed: "(report_status cfg s Perform_failed :: ('f event list \<times> int) option)
             = Some ([Put_status (take 511 (panel_url cfg @ ''/devices/'' @ device_id cfg)) body], - 1)"
    by (simp add: report_status_def pd)
  have init: "(report_status cfg s Init_failed :: ('f event list \<times> int) option) = Some ([], - 1)"
    by (simp add: report_status_def pd)
  have rep: "report_status cfg (s\<lparr>toggle_count := (toggle_count s)[2 := a, 3 := b]\<rparr>) r
           = (report_status cfg s r :: ('f event list \<times> int) option)" for r
    by (simp add: report_status_def indep)
  show ?thesis
    using chs body_def pd ok failed init indep rep by metis
qed

text \<open>
  The same with four channels, all on, and the toggle counts 2 and 3 of the channels 0
  and 1: the request reports the total 5 whether the toggle counts of the channels 2 and
  3 are 1 and 1 or 5 and 9.
\<close>

theorem total_toggles_is_count_0_plus_count_1_witness:
  \<open>wf_config example_switch_config
   \<and> wf_state \<lparr>channel = [1, 1, 1, 1], last_toggle = [7, 7, 7, 7], toggle_count = [2, 3, 1, 1]\<rparr>
   \<and> (report_status example_switch_config
       \<lparr>channel = [1, 1, 1, 1], last_toggle = [7, 7, 7, 7], toggle_count = [2, 3, 1, 1]\<rparr> Perform_ok
      :: (int event list \<times> int) option)
     = Some ([Put_status ''http://panel/api/devices/''
               ''{"status":"online","metrics":{"channels":[1,1,1,1],"total_toggles":5}}''], 0)
   \<and> (report_status example_switch_config
       \<lparr>channel = [1, 1, 1, 1], last_toggle = [7, 7, 7, 7], toggle_count = [2, 3, 5, 9]\<rparr> Perform_ok
      :: (int event list \<times> int) option)
     = Some ([Put_status ''http://panel/api/devices/''
               ''{"status":"online","metrics":{"channels":[1,1,1,1],"total_toggles":5}}''], 0)\<close>
proof -
  let ?s = "\<lparr>channel = [1, 1, 1, 1], last_toggle = [7, 7, 7, 7], toggle_count = [2, 3, 1, 1::ulong]\<rparr>"
  have wf: "wf_state ?s"
    by (simp add: wf_state_def MAX_CHANNELS_def)
  have indep: "(report_status example_switch_config
        (?s\<lparr>toggle_count := (toggle_count ?s)[2 := 5, 3 := 9]\<rparr>) Perform_ok
         :: (int event list \<times> int) option)
      = report_status example_switch_config ?s Perform_ok"
    using total_toggles_is_count_0_plus_count_1 [where ?'f = int, OF wf_config_example wf, of 5 9] by blast
  have upd: "?s\<lparr>toggle_count := (toggle_count ?s)[2 := 5, 3 := 9]\<rparr>
      = \<lparr>channel = [1, 1, 1, 1], last_toggle = [7, 7, 7, 7], toggle_count = [2, 3, 5, 9]\<rparr>"
    by (simp add: numeral_2_eq_2 numeral_3_eq_3)
  have moved: "(report_status example_switch_config
       \<lparr>channel = [1, 1, 1, 1], last_toggle = [7, 7, 7, 7], toggle_count = [2, 3, 5, 9]\<rparr> Perform_ok
      :: (int event list \<times> int) option)
     = report_status example_switch_config ?s Perform_ok"
    using indep unfolding upd .
  show ?thesis
    by (intro conjI) (rule wf_config_example wf example_report moved [unfolded example_report])+
qed

section \<open>Registration and reporting: helper facts\<close>

lemma report_metrics_no_log:
  "r \<noteq> Init_failed \<Longrightarrow>
     filter (\<lambda>e. \<not> is_log e) (fst (report_metrics cfg r t h)) = [Put_metrics (report_url cfg) t h]"
  by (cases r) (simp_all add: report_metrics_def)

lemma report_metrics_reports:
  "r \<noteq> Init_failed \<Longrightarrow>
     filter is_report (fst (report_metrics cfg r t h)) = [Put_metrics (report_url cfg) t h]"
  by (cases r) (simp_all add: report_metrics_def)

lemma sleep_loop_events: "e \<in> set (fst (sleep_loop cfg run i n)) \<Longrightarrow> e = Sleep 1"
proof (induction cfg run i n rule: sleep_loop.induct)
  case (1 cfg run i reads)
  then show ?case
    by (subst (asm) (2) sleep_loop.simps) (auto split: if_splits prod.splits)
qed

lemma sleep_loop_no_report: "filter is_report (fst (sleep_loop cfg run i n)) = []"
  by (auto simp: filter_empty_conv dest: sleep_loop_events)

lemma sensor_loop_independent:
  assumes "\<forall>k. report_result_at env k \<noteq> Init_failed" "\<forall>k. res k \<noteq> Init_failed"
  shows "snd (sensor_loop fuel cfg (env\<lparr>report_result_at := res\<rparr>) c n) = snd (sensor_loop fuel cfg env c n)
       \<and> filter (\<lambda>e. \<not> is_log e) (fst (sensor_loop fuel cfg (env\<lparr>report_result_at := res\<rparr>) c n))
           = filter (\<lambda>e. \<not> is_log e) (fst (sensor_loop fuel cfg env c n))"
proof (induction fuel arbitrary: c n)
  case 0
  show ?case by simp
next
  case (Suc fuel)
  show ?case
  proof (cases "running_at env n")
    case False
    then show ?thesis by simp
  next
    case True
    obtain t h where smp: "sample_at env (c + 1) = (t, h)" by (cases "sample_at env (c + 1)")
    obtain sl n' where sl: "sleep_loop cfg (running_at env) 0 (Suc n) = ((sl, n') :: 'a event list \<times> nat)"
      by (cases "sleep_loop cfg (running_at env) 0 (Suc n) :: 'a event list \<times> nat")
    have r1: "report_result_at env (c + 1) \<noteq> Init_failed" and r2: "res (c + 1) \<noteq> Init_failed"
      using assms by auto
    show ?thesis
      using Suc.IH [of "c + 1" n'] True
      by (simp add: smp sl Let_def split_beta report_metrics_no_log [OF r1] report_metrics_no_log [OF r2])
  qed
qed

lemma sensor_loop_reports:
  assumes "\<forall>k. report_result_at env k \<noteq> Init_failed"
  shows "filter is_report (fst (sensor_loop fuel cfg env c n))
     = map (\<lambda>k. Put_metrics (report_url cfg) (fst (sample_at env k)) (snd (sample_at env k)))
         [c + 1 .. c + int (length (filter is_report (fst (sensor_loop fuel cfg env c n))))]"
proof (induction fuel arbitrary: c n)
  case 0
  show ?case by simp
next
  case (Suc fuel)
  show ?case
  proof (cases "running_at env n")
    case False
    then show ?thesis by simp
  next
    case True
    obtain t h where smp: "sample_at env (c + 1) = (t, h)" by (cases "sample_at env (c + 1)")
    obtain sl n' where sl: "sleep_loop cfg (running_at env) 0 (Suc n) = ((sl, n') :: 'a event list \<times> nat)"
      by (cases "sleep_loop cfg (running_at env) 0 (Suc n) :: 'a event list \<times> nat")
    have "filter is_report (fst (sleep_loop cfg (running_at env) 0 (Suc n) :: 'a event list \<times> nat)) = []"
      by (rule sleep_loop_no_report)
    then have slr: "filter is_report sl = []"
      by (simp add: sl)
    have r1: "report_result_at env (c + 1) \<noteq> Init_failed"
      using assms by auto
    let ?rest = "filter is_report (fst (sensor_loop fuel cfg env (c + 1) n'))"
    have unfold: "filter is_report (fst (sensor_loop (Suc fuel) cfg env c n))
        = Put_metrics (report_url cfg) t h # ?rest"
      using True by (simp add: smp sl slr Let_def split_beta report_metrics_reports [OF r1])
    let ?f = "\<lambda>k. Put_metrics (report_url cfg) (fst (sample_at env k)) (snd (sample_at env k))"
    have le: "c + 1 \<le> c + int (Suc (length ?rest))" by simp
    have hi: "c + int (Suc (length ?rest)) = c + 1 + int (length ?rest)" by simp
    have upto: "[c + 1 .. c + int (Suc (length ?rest))] = (c + 1) # [c + 1 + 1 .. c + 1 + int (length ?rest)]"
      using upto_rec1 [OF le] by (simp only: hi)
    have hd: "?f (c + 1) = Put_metrics (report_url cfg) t h"
      by (simp add: smp)
    have "map ?f [c + 1 .. c + int (Suc (length ?rest))]
        = ?f (c + 1) # map ?f [c + 1 + 1 .. c + 1 + int (length ?rest)]"
      by (simp only: upto list.map)
    also have "\<dots> = Put_metrics (report_url cfg) t h # ?rest"
      using Suc.IH [of "c + 1" n', symmetric] by (simp only: hd)
    finally have "map ?f [c + 1 .. c + int (Suc (length ?rest))] = Put_metrics (report_url cfg) t h # ?rest" .
    then show ?thesis
      by (simp only: unfold length_Cons)
  qed
qed


lemma report_metrics_events:
  "e \<in> set (fst (report_metrics cfg r t h)) \<Longrightarrow>
     \<not> is_registration e \<and> e \<noteq> Log ''INFO'' ''Registering device with panel...''"
  by (cases r) (auto simp: report_metrics_def split: if_splits)

lemma sensor_loop_events:
  "e \<in> set (fst (sensor_loop fuel cfg env c n)) \<Longrightarrow>
     \<not> is_registration e \<and> e \<noteq> Log ''INFO'' ''Registering device with panel...''"
proof (induction fuel arbitrary: c n)
  case 0
  then show ?case by simp
next
  case (Suc fuel)
  show ?case
  proof (cases "running_at env n")
    case False
    with Suc.prems show ?thesis by simp
  next
    case True
    with Suc.prems have
      "e \<in> set (fst (report_metrics cfg (report_result_at env (c + 1))
              (fst (sample_at env (c + 1))) (snd (sample_at env (c + 1)))))
       \<or> e \<in> set (fst (sleep_loop cfg (running_at env) 0 (Suc n)))
       \<or> e \<in> set (fst (sensor_loop fuel cfg env (c + 1)
              (snd (sleep_loop cfg (running_at env) 0 (Suc n) :: 'a event list \<times> nat))))"
      by (auto simp: Let_def split_beta)
    then show ?thesis
      using report_metrics_events Suc.IH sleep_loop_events by fastforce
  qed
qed

lemma sensor_monitoring_events:
  assumes "e \<in> set (fst (sensor_monitoring fuel cfg env))"
  shows "\<not> is_registration e \<and> e \<noteq> Log ''INFO'' ''Registering device with panel...''"
proof -
  from assms have "e \<in> set (fst (sensor_loop fuel cfg env 0 0))
      \<or> e = Log ''INFO'' ''Starting sensor monitoring...''
      \<or> e = Log ''INFO'' ''Shutting down sensor firmware...''"
    by (auto simp: sensor_monitoring_def split_beta split: if_splits)
  then show ?thesis
    using sensor_loop_events by fastforce
qed

lemma sensor_monitoring_no_registration:
  "filter is_registration (fst (sensor_monitoring fuel cfg env)) = []"
  by (auto simp: filter_empty_conv dest: sensor_monitoring_events)

lemma sensor_register_device_rc:
  "snd (sensor_register_device cfg r) = (if r = Perform_ok then 0 else - 1)"
  by (cases r) (simp_all add: sensor_register_device_def)

lemma sensor_register_device_events:
  "e \<in> set (fst (sensor_register_device cfg r)) \<Longrightarrow>
     e \<noteq> Log ''INFO'' ''Registering device with panel...'' \<and> \<not> is_report e"
  by (cases r) (auto simp: sensor_register_device_def)

lemma report_status_events:
  "report_status cfg s r = Some (evs, rc) \<Longrightarrow> e \<in> set evs \<Longrightarrow> \<exists>url body. e = Put_status url body"
  by (cases r) (auto simp: report_status_def split: bind_splits)

lemma cli_loop_events:
  "cli_loop cfg inputs running last_report s = Some (tr, running', s') \<Longrightarrow> e \<in> set tr \<Longrightarrow>
     \<exists>url body. e = Put_status url body"
proof (induction inputs arbitrary: running last_report s tr running' s')
  case Nil
  then show ?case by simp
next
  case (Cons inp rest)
  show ?case
  proof (cases "running \<and> takeWhile (\<lambda>c. c \<noteq> CHR 0x0A) (stdin_line inp) \<noteq> []")
    case False
    with Cons.prems Cons.IH show ?thesis
      by (auto simp: Let_def split: if_splits)
  next
    case True
    with Cons.prems(1) obtain cmd ch ru1 s1 evs lr1 tr1 where
      rp: "(if check_time inp - last_report \<ge> report_interval cfg
             then do { (evs, rc) \<leftarrow> report_status cfg s1 (report_result inp);
                       Some (evs, report_time inp) }
             else Some ([], last_report)) = Some (evs, lr1)"
      and rec: "cli_loop cfg rest ru1 lr1 s1 = Some (tr1, running', s')"
      and tr: "tr = evs @ tr1"
      by (auto simp: Let_def bind_eq_Some_conv)
    from rp have evs: "e \<in> set evs \<Longrightarrow> \<exists>url body. e = Put_status url body"
      by (auto split: if_splits bind_splits dest: report_status_events)
    have "e \<in> set tr1 \<Longrightarrow> \<exists>url body. e = Put_status url body"
      using Cons.IH [OF rec] by simp
    with evs tr Cons.prems(2) show ?thesis by auto
  qed
qed

lemma switch_main_events:
  assumes "switch_main cfg r inputs = Some (tr :: 'a event list, st)"
  shows "\<exists>loop running s. cli_loop cfg inputs True 0 switch_state_init = Some (loop, running, s)
     \<and> tr = (if device_id cfg = []
              then Log ''INFO'' ''Registering device...'' # fst (switch_register_device cfg r)
              else [])
            @ [Log ''INFO'' ''Starting switch firmware...'', Pthread_create] @ loop
            @ [Log ''INFO'' ''Shutting down...'', Pthread_join]
     \<and> st = (if running then None else Some 0)"
proof (cases "cli_loop cfg inputs True 0 switch_state_init :: ('a event list \<times> bool \<times> SwitchState) option")
  case None
  with assms show ?thesis by (simp add: switch_main_def Let_def)
next
  case (Some res)
  obtain loop running s where res: "res = (loop, running, s)" by (cases res)
  from assms show ?thesis
    by (simp add: switch_main_def Let_def Some res)
qed

lemma example_run:
  "sensor_main 3 example_sensor_config example_env
     = ([Log ''INFO'' ''Starting sensor monitoring...'',
         Put_metrics ''http://panel/api/devices/sensor-1'' 21 41,
         Log ''WARN'' ''Failed to report metrics'',
         Sleep 1,
         Put_metrics ''http://panel/api/devices/sensor-1'' 22 42,
         Sleep 1,
         Log ''INFO'' ''Shutting down sensor firmware...''], Some 0)"
  by code_simp

lemma example_switch_run:
  \<open>(switch_main example_switch_config Perform_failed example_inputs
      :: (int event list \<times> int option) option)
   = Some ([Log ''INFO'' ''Registering device...'',
            Post_devices ''http://panel/api/devices''
              ''{"name":"","device_type":"switch","ip_address":"127.0.0.1","metadata":{"firmware_version":"1.0.0","channels":4}}'',
            Log ''INFO'' ''Starting switch firmware...'',
            Pthread_create,
            Put_status ''http://panel/api/devices/''
              ''{"status":"online","metrics":{"channels":[0,0,1,0],"total_toggles":0}}'',
            Put_status ''http://panel/api/devices/''
              ''{"status":"online","metrics":{"channels":[0,0,1,0],"total_toggles":0}}'',
            Log ''INFO'' ''Shutting down...'',
            Pthread_join], Some 0)\<close>
  by code_simp

section \<open>Registration and reporting: properties\<close>

text \<open>
  C6. With an empty device id and a registration that fails (no curl handle, or a
  transport error), the sensor's \<^verbatim>\<open>main\<close> logs the failure and returns 1 without having
  sent any report, whatever the rest of the environment. The switch's \<^verbatim>\<open>main\<close> goes on:
  after the registration events it starts the listener thread and runs the command loop
  from the initial state on all the input; whether it ends, and with which status (never
  a non-zero one), is what it is after a successful registration, and a run after a
  transport error is the run after a success, event for event.
\<close>

theorem registration_failure_sensor_exits_switch_continues:
  assumes "device_id scfg = []" "device_id cfg = []" "r \<noteq> Perform_ok"
  shows "sensor_main fuel scfg (env\<lparr>register_result := r\<rparr>)
           = (Log ''INFO'' ''Registering device with panel...''
                # fst (sensor_register_device scfg r) @ [Log ''ERROR'' ''Failed to register device''],
              Some 1)
       \<and> filter is_report (fst (sensor_main fuel scfg (env\<lparr>register_result := r\<rparr>))) = []
       \<and> (switch_main cfg r inputs :: ('b event list \<times> int option) option)
           = map_option (\<lambda>(loop, running, s).
               (Log ''INFO'' ''Registering device...'' # fst (switch_register_device cfg r)
                  @ [Log ''INFO'' ''Starting switch firmware...'', Pthread_create] @ loop
                  @ [Log ''INFO'' ''Shutting down...'', Pthread_join],
                if running then None else Some 0))
             (cli_loop cfg inputs True 0 switch_state_init)
       \<and> map_option snd (switch_main cfg r inputs :: ('b event list \<times> int option) option)
           = map_option snd (switch_main cfg Perform_ok inputs :: ('b event list \<times> int option) option)
       \<and> (switch_main cfg Perform_failed inputs :: ('b event list \<times> int option) option)
           = switch_main cfg Perform_ok inputs"
proof -
  have exit: "sensor_main fuel scfg (env\<lparr>register_result := r\<rparr>)
           = (Log ''INFO'' ''Registering device with panel...''
                # fst (sensor_register_device scfg r) @ [Log ''ERROR'' ''Failed to register device''],
              Some 1)"
    using assms(1,3) by (simp add: sensor_main_def split_beta sensor_register_device_rc)
  have norep: "filter is_report (fst (sensor_main fuel scfg (env\<lparr>register_result := r\<rparr>))) = []"
    unfolding exit using sensor_register_device_events [of _ scfg r]
    by (auto simp: filter_empty_conv)
  have form: "(switch_main cfg r inputs :: ('b event list \<times> int option) option)
           = map_option (\<lambda>(loop, running, s).
               (Log ''INFO'' ''Registering device...'' # fst (switch_register_device cfg r)
                  @ [Log ''INFO'' ''Starting switch firmware...'', Pthread_create] @ loop
                  @ [Log ''INFO'' ''Shutting down...'', Pthread_join],
                if running then None else Some 0))
             (cli_loop cfg inputs True 0 switch_state_init)" for r
    using assms(2)
    by (cases "cli_loop cfg inputs True 0 switch_state_init :: ('b event list \<times> bool \<times> SwitchState) option")
      (auto simp: switch_main_def Let_def)
  have same: "map_option snd (switch_main cfg r inputs :: ('b event list \<times> int option) option)
           = map_option snd (switch_main cfg Perform_ok inputs :: ('b event list \<times> int option) option)"
    unfolding form by (simp add: option.map_comp comp_def split_beta)
  have eq: "(switch_main cfg Perform_failed inputs :: ('b event list \<times> int option) option)
           = switch_main cfg Perform_ok inputs"
    unfolding form by (simp add: switch_register_device_def)
  show ?thesis using exit norep form same eq by blast
qed

text \<open>
  The same for the example inputs, with a transport error at registration: the switch
  goes through its two lines of input and returns 0.
\<close>

theorem registration_failure_sensor_exits_switch_continues_witness:
  "device_id (example_sensor_config\<lparr>device_id := []\<rparr>) = []
   \<and> device_id example_switch_config = []
   \<and> Perform_failed \<noteq> Perform_ok
   \<and> snd (sensor_main 3 (example_sensor_config\<lparr>device_id := []\<rparr>)
           (example_env\<lparr>register_result := Perform_failed\<rparr>)) = Some 1
   \<and> filter is_report (fst (sensor_main 3 (example_sensor_config\<lparr>device_id := []\<rparr>)
           (example_env\<lparr>register_result := Perform_failed\<rparr>))) = []
   \<and> (switch_main example_switch_config Perform_failed example_inputs
         :: (int event list \<times> int option) option)
       = switch_main example_switch_config Perform_ok example_inputs
   \<and> map_option snd (switch_main example_switch_config Perform_failed example_inputs
         :: (int event list \<times> int option) option) = Some (Some 0)"
proof -
  have a: "device_id (example_sensor_config\<lparr>device_id := []\<rparr>) = []" by simp
  have b: "device_id example_switch_config = []"
    by (simp add: example_switch_config_def config_init_def)
  have c: "Perform_failed \<noteq> Perform_ok" by simp
  note th = registration_failure_sensor_exits_switch_continues
        [where ?'b = int, OF a b c, of 3 example_env example_inputs]
  have s1: "snd (sensor_main 3 (example_sensor_config\<lparr>device_id := []\<rparr>)
           (example_env\<lparr>register_result := Perform_failed\<rparr>)) = Some 1"
    by (simp add: th [THEN conjunct1])
  have s2: "map_option snd (switch_main example_switch_config Perform_failed example_inputs
         :: (int event list \<times> int option) option) = Some (Some 0)"
    by (simp add: example_switch_run)
  show ?thesis
    by (intro conjI)
      (rule a b c s1 s2 th [THEN conjunct2, THEN conjunct1]
        th [THEN conjunct2, THEN conjunct2, THEN conjunct2, THEN conjunct2])+
qed

text \<open>
  C7. In a whole run of either firmware, the line that announces the registration is
  logged exactly when the configured device id is empty, and the number of registration
  requests is 1 when the device id is empty and curl gave a handle, and 0 otherwise: with
  a device id configured, no registration request is ever made.
\<close>

theorem registration_exactly_when_device_id_empty:
  "(Log ''INFO'' ''Registering device with panel...'' \<in> set (fst (sensor_main fuel scfg env))
      \<longleftrightarrow> device_id scfg = [])
   \<and> length (filter is_registration (fst (sensor_main fuel scfg env)))
      = (if device_id scfg = [] \<and> register_result env \<noteq> Init_failed then 1 else 0)
   \<and> (switch_main cfg r inputs = Some (tr, st) \<longrightarrow>
        (Log ''INFO'' ''Registering device...'' \<in> set tr \<longleftrightarrow> device_id cfg = [])
        \<and> length (filter is_registration tr)
           = (if device_id cfg = [] \<and> r \<noteq> Init_failed then 1 else 0))"
proof (intro conjI impI)
  show "Log ''INFO'' ''Registering device with panel...'' \<in> set (fst (sensor_main fuel scfg env))
      \<longleftrightarrow> device_id scfg = []"
    using sensor_monitoring_events [of "Log ''INFO'' ''Registering device with panel...''" fuel scfg env]
    by (auto simp: sensor_main_def split_beta)
  show "length (filter is_registration (fst (sensor_main fuel scfg env)))
      = (if device_id scfg = [] \<and> register_result env \<noteq> Init_failed then 1 else 0)"
    by (cases "register_result env")
      (simp_all add: sensor_main_def sensor_register_device_def sensor_monitoring_no_registration
        split_beta)
next
  assume run: "switch_main cfg r inputs = Some (tr, st)"
  then obtain loop running s where
    loop: "cli_loop cfg inputs True 0 switch_state_init = Some (loop, running, s)"
    and tr: "tr = (if device_id cfg = []
              then Log ''INFO'' ''Registering device...'' # fst (switch_register_device cfg r)
              else [])
            @ [Log ''INFO'' ''Starting switch firmware...'', Pthread_create] @ loop
            @ [Log ''INFO'' ''Shutting down...'', Pthread_join]"
    using switch_main_events by blast
  have put: "\<And>e. e \<in> set loop \<Longrightarrow> \<exists>url body. e = Put_status url body"
    using cli_loop_events [OF loop] by blast
  have noreg: "filter is_registration loop = []"
    by (auto simp: filter_empty_conv dest!: put)
  have nolog: "Log ''INFO'' ''Registering device...'' \<notin> set loop"
    by (auto dest!: put)
  show "Log ''INFO'' ''Registering device...'' \<in> set tr \<longleftrightarrow> device_id cfg = []"
    using nolog by (auto simp: tr)
  show "length (filter is_registration tr)
           = (if device_id cfg = [] \<and> r \<noteq> Init_failed then 1 else 0)"
    by (cases r) (simp_all add: tr noreg switch_register_device_def)
qed

text \<open>The same for a switch and a sensor that both have a device id.\<close>

theorem registration_exactly_when_device_id_empty_witness:
  "(switch_main (example_switch_config\<lparr>device_id := ''switch-1''\<rparr>) Perform_ok []
      :: (int event list \<times> int option) option)
     = Some ([Log ''INFO'' ''Starting switch firmware...'', Pthread_create,
              Log ''INFO'' ''Shutting down...'', Pthread_join], None)
   \<and> length (filter is_registration
        [Log ''INFO'' ''Starting switch firmware...'', Pthread_create,
         Log ''INFO'' ''Shutting down...'', Pthread_join :: int event]) = 0
   \<and> length (filter is_registration (fst (sensor_main 3 example_sensor_config example_env))) = 0"
proof -
  have run: "(switch_main (example_switch_config\<lparr>device_id := ''switch-1''\<rparr>) Perform_ok []
      :: (int event list \<times> int option) option)
     = Some ([Log ''INFO'' ''Starting switch firmware...'', Pthread_create,
              Log ''INFO'' ''Shutting down...'', Pthread_join], None)"
    by (simp add: switch_main_def)
  have id: "device_id example_sensor_config \<noteq> []"
    by (simp add: example_sensor_config_def)
  show ?thesis
    using run id
      registration_exactly_when_device_id_empty [of 3 example_sensor_config example_env
        "example_switch_config\<lparr>device_id := ''switch-1''\<rparr>" Perform_ok "[]"
        "[Log ''INFO'' ''Starting switch firmware...'', Pthread_create,
          Log ''INFO'' ''Shutting down...'', Pthread_join]" None]
    by simp
qed

text \<open>
  C8. A report whose transport call fails gives one request and one warning, and
  nothing more. With a curl handle in every cycle, replacing the outcomes of the
  transport calls by any others changes neither the exit status of a run (or that it has
  not ended) nor its events other than log lines: the same requests with the same
  readings and the same calls of \<^verbatim>\<open>sleep\<close> in the same order. The requests of the loop are
  one per cycle, each with the readings of its own cycle. After a failed report in a
  cycle, the loop goes through the same wait and on to the next iteration with the next
  cycle number.
\<close>

theorem failed_report_is_dropped_and_next_cycle_runs:
  fixes env :: "'a sensor_env"
  assumes "\<forall>k. report_result_at env k \<noteq> Init_failed" "\<forall>k. res k \<noteq> Init_failed"
  shows "report_metrics cfg Perform_failed t h
           = ([Put_metrics (report_url cfg) t h, Log ''WARN'' ''Failed to report metrics''], - 1)
       \<and> snd (sensor_main fuel cfg (env\<lparr>report_result_at := res\<rparr>)) = snd (sensor_main fuel cfg env)
       \<and> filter (\<lambda>e. \<not> is_log e) (fst (sensor_main fuel cfg (env\<lparr>report_result_at := res\<rparr>)))
           = filter (\<lambda>e. \<not> is_log e) (fst (sensor_main fuel cfg env))
       \<and> filter is_report (fst (sensor_loop fuel cfg env c n))
           = map (\<lambda>k. Put_metrics (report_url cfg) (fst (sample_at env k)) (snd (sample_at env k)))
               [c + 1 .. c + int (length (filter is_report (fst (sensor_loop fuel cfg env c n))))]
       \<and> (running_at env n \<and> report_result_at env (c + 1) = Perform_failed \<longrightarrow>
            sensor_loop (Suc fuel) cfg env c n
              = ([Put_metrics (report_url cfg) (fst (sample_at env (c + 1))) (snd (sample_at env (c + 1))),
                  Log ''WARN'' ''Failed to report metrics'']
                   @ fst (sleep_loop cfg (running_at env) 0 (Suc n) :: 'a event list \<times> nat)
                   @ fst (sensor_loop fuel cfg env (c + 1)
                       (snd (sleep_loop cfg (running_at env) 0 (Suc n) :: 'a event list \<times> nat))),
                 snd (sensor_loop fuel cfg env (c + 1)
                       (snd (sleep_loop cfg (running_at env) 0 (Suc n) :: 'a event list \<times> nat)))))"
proof -
  let ?env' = "env\<lparr>report_result_at := res\<rparr>"
  have warn: "report_metrics cfg Perform_failed t h
           = ([Put_metrics (report_url cfg) t h, Log ''WARN'' ''Failed to report metrics''], - 1)"
    by (simp add: report_metrics_def)
  have loop: "snd (sensor_loop fuel cfg ?env' 0 0) = snd (sensor_loop fuel cfg env 0 0)"
    and loop_tr: "filter (\<lambda>e. \<not> is_log e) (fst (sensor_loop fuel cfg ?env' 0 0))
           = filter (\<lambda>e. \<not> is_log e) (fst (sensor_loop fuel cfg env 0 0))"
    using sensor_loop_independent [OF assms, of fuel cfg 0 0] by simp_all
  have mon: "snd (sensor_monitoring fuel cfg ?env') = snd (sensor_monitoring fuel cfg env)"
    and mon_tr: "filter (\<lambda>e. \<not> is_log e) (fst (sensor_monitoring fuel cfg ?env'))
           = filter (\<lambda>e. \<not> is_log e) (fst (sensor_monitoring fuel cfg env))"
    using loop loop_tr by (simp_all add: sensor_monitoring_def split_beta)
  have main: "snd (sensor_main fuel cfg ?env') = snd (sensor_main fuel cfg env)"
    using mon by (simp add: sensor_main_def split_beta)
  have main_tr: "filter (\<lambda>e. \<not> is_log e) (fst (sensor_main fuel cfg ?env'))
           = filter (\<lambda>e. \<not> is_log e) (fst (sensor_main fuel cfg env))"
    using mon_tr by (simp add: sensor_main_def split_beta)
  have step: "sensor_loop (Suc fuel) cfg env c n
              = ([Put_metrics (report_url cfg) (fst (sample_at env (c + 1))) (snd (sample_at env (c + 1))),
                  Log ''WARN'' ''Failed to report metrics'']
                   @ fst (sleep_loop cfg (running_at env) 0 (Suc n) :: 'a event list \<times> nat)
                   @ fst (sensor_loop fuel cfg env (c + 1)
                       (snd (sleep_loop cfg (running_at env) 0 (Suc n) :: 'a event list \<times> nat))),
                 snd (sensor_loop fuel cfg env (c + 1)
                       (snd (sleep_loop cfg (running_at env) 0 (Suc n) :: 'a event list \<times> nat))))"
    if "running_at env n" "report_result_at env (c + 1) = Perform_failed"
    using that by (simp add: Let_def split_beta report_metrics_def)
  show ?thesis
    using warn main main_tr sensor_loop_reports [OF assms(1), of fuel cfg c n] step by blast
qed

text \<open>
  The same for the example inputs, where the report of cycle 1 fails: the run has the
  requests and waits of the run in which every report succeeds.
\<close>

theorem failed_report_is_dropped_and_next_cycle_runs_witness:
  "(\<forall>k. report_result_at example_env k \<noteq> Init_failed)
   \<and> report_result_at example_env 1 = Perform_failed
   \<and> snd (sensor_main 3 example_sensor_config (example_env\<lparr>report_result_at := \<lambda>k. Perform_ok\<rparr>))
       = Some 0
   \<and> filter (\<lambda>e. \<not> is_log e)
        (fst (sensor_main 3 example_sensor_config (example_env\<lparr>report_result_at := \<lambda>k. Perform_ok\<rparr>)))
       = [Put_metrics ''http://panel/api/devices/sensor-1'' 21 41, Sleep 1,
          Put_metrics ''http://panel/api/devices/sensor-1'' 22 42, Sleep 1]"
proof -
  have a: "\<forall>k. report_result_at example_env k \<noteq> Init_failed"
    by (simp add: example_env_def)
  have b: "\<forall>k. (\<lambda>k :: int. Perform_ok) k \<noteq> Init_failed" by simp
  have f: "report_result_at example_env 1 = Perform_failed"
    by (simp add: example_env_def)
  show ?thesis
    using a f
      failed_report_is_dropped_and_next_cycle_runs
        [OF a b, of example_sensor_config "21 :: int" 41 3 0 0]
    by (simp add: example_run)
qed

end
